theory Spec2Isabelle
  imports Main "HOL-Library.Word"
begin

section \<open>The capture headers\<close>

text \<open>
  The sources are three C headers: \<^verbatim>\<open>openssl_tracer_types.h\<close>, \<^verbatim>\<open>tls_message.h\<close> and
  \<^verbatim>\<open>bpf_core_read.h\<close>. They hold no function, only macros, enumerations and structures.
  Each declaration is embedded twice: as data (the list of its enumerators or fields, in
  the order of the source, so that statements about the declaration itself can be made),
  and, for the event structures, as a record of the values the structure holds.
\<close>

subsection \<open>C types of the fields\<close>

text \<open>
  Only the types that occur in the three headers. \<^verbatim>\<open>int\<close> is the 32-bit signed integer
  of the eBPF target and of every Linux ABI the headers are compiled for; the signedness of
  plain \<^verbatim>\<open>char\<close> is left open by C and is left open here.
\<close>

datatype ctype =
    CChar
  | CInt
  | CUint32
  | CUint64
  | CEnum string
  | CArray ctype nat
  | CPtr ctype

fun c_int_width :: "ctype \<Rightarrow> nat option" where
  "c_int_width CChar = Some 8"
| "c_int_width CInt = Some 32"
| "c_int_width CUint32 = Some 32"
| "c_int_width CUint64 = Some 64"
| "c_int_width (CEnum n) = None"
| "c_int_width (CArray t n) = None"
| "c_int_width (CPtr t) = None"

fun c_int_signed :: "ctype \<Rightarrow> bool option" where
  "c_int_signed CChar = None"
| "c_int_signed CInt = Some True"
| "c_int_signed CUint32 = Some False"
| "c_int_signed CUint64 = Some False"
| "c_int_signed (CEnum n) = None"
| "c_int_signed (CArray t n) = None"
| "c_int_signed (CPtr t) = None"

text \<open>The number of elements of an array type.\<close>

fun c_array_len :: "ctype \<Rightarrow> nat option" where
  "c_array_len (CArray t n) = Some n"
| "c_array_len t = None"

subsection \<open>Enumerations\<close>

text \<open>
  An enumeration is the list of its enumerators, each with the value the source writes for
  it, if any. C gives the first enumerator without a value 0 and every other one the value
  of its predecessor plus 1.
\<close>

type_synonym enum_decl = "(string \<times> int option) list"

fun enum_values_from :: "int \<Rightarrow> enum_decl \<Rightarrow> (string \<times> int) list" where
  "enum_values_from n [] = []"
| "enum_values_from n ((c, None) # ds) = (c, n) # enum_values_from (n + 1) ds"
| "enum_values_from n ((c, Some v) # ds) = (c, v) # enum_values_from (v + 1) ds"

definition enum_values :: "enum_decl \<Rightarrow> (string \<times> int) list" where
  "enum_values ds = enum_values_from 0 ds"

text \<open>\<^verbatim>\<open>enum ssl_data_event_type { kSSLRead, kSSLWrite };\<close>\<close>

definition ssl_data_event_type_decl :: enum_decl where
  "ssl_data_event_type_decl = [(''kSSLRead'', None), (''kSSLWrite'', None)]"

datatype ssl_data_event_type = kSSLRead | kSSLWrite

fun ssl_data_event_type_name :: "ssl_data_event_type \<Rightarrow> string" where
  "ssl_data_event_type_name kSSLRead = ''kSSLRead''"
| "ssl_data_event_type_name kSSLWrite = ''kSSLWrite''"

definition ssl_data_event_type_val :: "ssl_data_event_type \<Rightarrow> int option" where
  "ssl_data_event_type_val d =
     map_of (enum_values ssl_data_event_type_decl) (ssl_data_event_type_name d)"

text \<open>\<^verbatim>\<open>enum bpf_field_info_kind\<close>, every enumerator with its value written out.\<close>

definition bpf_field_info_kind_decl :: enum_decl where
  "bpf_field_info_kind_decl =
     [(''BPF_FIELD_BYTE_OFFSET'', Some 0),
      (''BPF_FIELD_BYTE_SIZE'', Some 1),
      (''BPF_FIELD_EXISTS'', Some 2),
      (''BPF_FIELD_SIGNED'', Some 3),
      (''BPF_FIELD_LSHIFT_U64'', Some 4),
      (''BPF_FIELD_RSHIFT_U64'', Some 5)]"

datatype bpf_field_info_kind =
    BPF_FIELD_BYTE_OFFSET
  | BPF_FIELD_BYTE_SIZE
  | BPF_FIELD_EXISTS
  | BPF_FIELD_SIGNED
  | BPF_FIELD_LSHIFT_U64
  | BPF_FIELD_RSHIFT_U64

fun bpf_field_info_kind_name :: "bpf_field_info_kind \<Rightarrow> string" where
  "bpf_field_info_kind_name BPF_FIELD_BYTE_OFFSET = ''BPF_FIELD_BYTE_OFFSET''"
| "bpf_field_info_kind_name BPF_FIELD_BYTE_SIZE = ''BPF_FIELD_BYTE_SIZE''"
| "bpf_field_info_kind_name BPF_FIELD_EXISTS = ''BPF_FIELD_EXISTS''"
| "bpf_field_info_kind_name BPF_FIELD_SIGNED = ''BPF_FIELD_SIGNED''"
| "bpf_field_info_kind_name BPF_FIELD_LSHIFT_U64 = ''BPF_FIELD_LSHIFT_U64''"
| "bpf_field_info_kind_name BPF_FIELD_RSHIFT_U64 = ''BPF_FIELD_RSHIFT_U64''"

definition bpf_field_info_kind_val :: "bpf_field_info_kind \<Rightarrow> int option" where
  "bpf_field_info_kind_val k =
     map_of (enum_values bpf_field_info_kind_decl) (bpf_field_info_kind_name k)"

subsection \<open>Macros and structures\<close>

text \<open>
  \<^verbatim>\<open>#define MAX_DATA_SIZE 8192\<close> of \<^verbatim>\<open>openssl_tracer_types.h\<close>, and
  \<^verbatim>\<open>#define MAX_DATA 8192\<close> and \<^verbatim>\<open>#define PERF_BUFFER_NAME "TLS_DATA_PERF_OUTPUT"\<close> of
  \<^verbatim>\<open>tls_message.h\<close>.
\<close>

definition MAX_DATA_SIZE :: nat where
  "MAX_DATA_SIZE = 8192"

definition MAX_DATA :: nat where
  "MAX_DATA = 8192"

definition PERF_BUFFER_NAME :: string where
  "PERF_BUFFER_NAME = ''TLS_DATA_PERF_OUTPUT''"

type_synonym struct_decl = "(string \<times> ctype) list"

definition ssl_data_event_t_decl :: struct_decl where
  "ssl_data_event_t_decl =
     [(''type'', CEnum ''ssl_data_event_type''),
      (''timestamp_ns'', CUint64),
      (''pid'', CUint32),
      (''tid'', CInt),
      (''data'', CArray CChar MAX_DATA_SIZE),
      (''data_len'', CInt)]"

definition ssl_data_decl :: struct_decl where
  "ssl_data_decl = [(''buf'', CPtr CChar)]"

definition TLS_MESSAGE_decl :: struct_decl where
  "TLS_MESSAGE_decl =
     [(''elapsed'', CInt),
      (''ptid'', CInt),
      (''message'', CArray CChar MAX_DATA)]"

definition field_names :: "struct_decl \<Rightarrow> string list" where
  "field_names fs = map fst fs"

definition field_type :: "struct_decl \<Rightarrow> string \<Rightarrow> ctype option" where
  "field_type fs n = map_of fs n"

text \<open>
  The values of the two event structures. An unsigned field is read with \<^const>\<open>unat\<close>, a
  signed one with \<^const>\<open>sint\<close>; a \<^verbatim>\<open>char\<close> array is the list of its bytes, and a value is
  well formed when the list has the declared number of elements.
\<close>

record ssl_data_event_t =
  type :: ssl_data_event_type
  timestamp_ns :: "64 word"
  pid :: "32 word"
  tid :: "32 word"
  data :: "8 word list"
  data_len :: "32 word"

definition ssl_data_event_t_wf :: "ssl_data_event_t \<Rightarrow> bool" where
  "ssl_data_event_t_wf e = (length (data e) = MAX_DATA_SIZE)"

record TLS_MESSAGE =
  elapsed :: "32 word"
  ptid :: "32 word"
  message :: "8 word list"

definition TLS_MESSAGE_wf :: "TLS_MESSAGE \<Rightarrow> bool" where
  "TLS_MESSAGE_wf m = (length (message m) = MAX_DATA)"

text \<open>
  The integer type a field is declared with, as its width in bits and its signedness, and
  the number of elements a field is declared with when it is an array.
\<close>

definition field_int :: "struct_decl \<Rightarrow> string \<Rightarrow> (nat \<times> bool) option" where
  "field_int fs n =
     (case field_type fs n of
        None \<Rightarrow> None
      | Some t \<Rightarrow>
          (case c_int_width t of
             None \<Rightarrow> None
           | Some w \<Rightarrow> (case c_int_signed t of None \<Rightarrow> None | Some s \<Rightarrow> Some (w, s))))"

definition field_array_len :: "struct_decl \<Rightarrow> string \<Rightarrow> nat option" where
  "field_array_len fs n = (case field_type fs n of None \<Rightarrow> None | Some t \<Rightarrow> c_array_len t)"

text \<open>
  Modelled from the spec: no code under the sources reads the \<^verbatim>\<open>data\<close> buffer. Section 6
  says that only its first \<^verbatim>\<open>data_len\<close> bytes are valid; \<open>valid_data\<close> is that prefix, with
  \<^verbatim>\<open>data_len\<close> read as the signed integer it is declared as (a negative length gives no
  byte, a length beyond the buffer gives the whole buffer).
\<close>

definition valid_data :: "ssl_data_event_t \<Rightarrow> 8 word list" where
  "valid_data e = take (nat (sint (data_len e))) (data e)"

text \<open>
  What a field tells about a captured chunk. The table reads the field names of the two
  structures the way section 6 of the spec normalises them: \<^verbatim>\<open>pid\<close>, \<^verbatim>\<open>tid\<close> and \<^verbatim>\<open>ptid\<close>
  identify the process and thread, \<^verbatim>\<open>type\<close> is the direction, \<^verbatim>\<open>timestamp_ns\<close> and
  \<^verbatim>\<open>elapsed\<close> are times, \<^verbatim>\<open>data\<close> and \<^verbatim>\<open>message\<close> hold the bytes. \<^verbatim>\<open>data_len\<close> is the
  length of the chunk and none of the four.
\<close>

datatype event_info = Identity | Direction | Timestamp | Chunk

definition field_info :: "string \<Rightarrow> event_info option" where
  "field_info n =
     map_of
       [(''type'', Direction),
        (''timestamp_ns'', Timestamp),
        (''pid'', Identity),
        (''tid'', Identity),
        (''data'', Chunk),
        (''elapsed'', Timestamp),
        (''ptid'', Identity),
        (''message'', Chunk)] n"

definition carried :: "struct_decl \<Rightarrow> event_info list" where
  "carried fs = List.map_filter field_info (field_names fs)"

text \<open>Two well-formed values, used where a statement is checked on a concrete input.\<close>

definition example_event :: ssl_data_event_t where
  "example_event =
     \<lparr>type = kSSLWrite, timestamp_ns = 1000, pid = 42, tid = 43,
      data = replicate 8192 0, data_len = 8192\<rparr>"

definition example_message :: TLS_MESSAGE where
  "example_message = \<lparr>elapsed = 1, ptid = 2, message = replicate 8192 0\<rparr>"

section \<open>The per-stream reassembly buffer\<close>

text \<open>
  The headers are all the code there is: the user-space engine that consumes the events is
  not among the sources. Every definition of this section is therefore written from the
  spec (sections 3, 4.2, 4.3 and 8), one logical stream at a time. Not modelled, because
  no claim verified below rests on them: the key resolver and its epochs, idle eviction,
  the back-pressure queue and the global ceiling.
\<close>

type_synonym byte = "8 word"

text \<open>Modelled from the spec: \<^verbatim>\<open>MAX_CHUNK\<close>, the largest payload of one event (section 3).\<close>

definition MAX_CHUNK :: nat where
  "MAX_CHUNK = 8192"

text \<open>
  Modelled from the spec: the Capture Event of section 3. The timestamp is a natural
  number, so that the position after the last one always exists.
\<close>

record capture_event =
  process_id :: "32 word"
  thread_id :: "32 word"
  direction :: ssl_data_event_type
  timestamp :: nat
  payload :: "byte list"
  is_truncated :: bool

text \<open>
  Modelled from the spec: a buffered chunk is the event and the time it was inserted at
  (the clock the gap timeout is measured on). Its position is its timestamp; chunks with
  the same timestamp are kept in the order they arrived in.
\<close>

record pending_chunk =
  event :: capture_event
  arrived :: nat

definition position :: "pending_chunk \<Rightarrow> nat" where
  "position p = timestamp (event p)"

definition chunk_bytes :: "pending_chunk list \<Rightarrow> byte list" where
  "chunk_bytes ps = concat (map (\<lambda>p. payload (event p)) ps)"

text \<open>
  Modelled from the spec: the state of one stream's buffer (section 4.2): the chunks not yet
  emitted, in position order; the expected next position; and the two counters of dropped
  duplicates and of rejected malformed events. The spec does not say where a new stream
  expects its first chunk, so the first expected position is the parameter of
  \<open>new_stream\<close>.
\<close>

record stream_buffer =
  pending :: "pending_chunk list"
  expected :: nat
  dropped_duplicates :: nat
  malformed :: nat

definition new_stream :: "nat \<Rightarrow> stream_buffer" where
  "new_stream k = \<lparr>pending = [], expected = k, dropped_duplicates = 0, malformed = 0\<rparr>"

text \<open>
  Modelled from the spec: the three options of section 6 that the buffer of one stream
  reads.
\<close>

record stream_config =
  gap_timeout :: nat
  max_reassembly_span_chunks :: nat
  max_buffered_bytes_per_stream :: nat

text \<open>
  Modelled from the spec: what the sink receives (sections 4.4 and 8), a segment of ordered
  bytes or a gap marker. The marker carries no byte count: the buffer cannot know how many
  bytes a chunk that never came would have held.
\<close>

datatype sink_item = Segment "byte list" | GapMarker

text \<open>
  Modelled from the spec: \<^verbatim>\<open>insert\<close> (section 4.2). The chunk is stored at its position,
  after the chunks of the same timestamp that came before it. When a chunk with the same
  timestamp and the same payload hash is already present, nothing is stored and the
  dropped-duplicate counter goes up by one. The hash function is the parameter \<open>h\<close>.
\<close>

definition same_chunk :: "(byte list \<Rightarrow> 'h) \<Rightarrow> capture_event \<Rightarrow> pending_chunk \<Rightarrow> bool" where
  "same_chunk h e p =
     (timestamp (event p) = timestamp e \<and> h (payload (event p)) = h (payload e))"

fun insert_by_position :: "pending_chunk \<Rightarrow> pending_chunk list \<Rightarrow> pending_chunk list" where
  "insert_by_position p [] = [p]"
| "insert_by_position p (q # qs) =
     (if position q \<le> position p then q # insert_by_position p qs else p # q # qs)"

definition insert_chunk ::
  "(byte list \<Rightarrow> 'h) \<Rightarrow> nat \<Rightarrow> capture_event \<Rightarrow> stream_buffer \<Rightarrow> stream_buffer" where
  "insert_chunk h now e b =
     (if list_ex (same_chunk h e) (pending b)
      then b\<lparr>dropped_duplicates := dropped_duplicates b + 1\<rparr>
      else b\<lparr>pending := insert_by_position \<lparr>event = e, arrived = now\<rparr> (pending b)\<rparr>)"

text \<open>
  Modelled from the spec: the buffered-but-unemitted bytes of a stream (section 3), the
  payload bytes of the chunks its buffer holds.
\<close>

definition buffered_bytes :: "stream_buffer \<Rightarrow> nat" where
  "buffered_bytes b = length (chunk_bytes (pending b))"

text \<open>
  Modelled from the spec: the contiguous chunks available from position \<open>k\<close> on (section
  4.2, "while contiguous chunks are available"). Timestamps are contiguous when they follow
  one another without a hole, as in the scenarios of section 8 (1, 2, 3); a chunk with the
  timestamp of the one before it is a tie and belongs to the run. The result is the run, the
  chunks left, and the position expected after the run.
\<close>

fun contiguous_run ::
  "nat \<Rightarrow> pending_chunk list \<Rightarrow> pending_chunk list \<times> pending_chunk list \<times> nat" where
  "contiguous_run k [] = ([], [], k)"
| "contiguous_run k (p # ps) =
     (if position p \<le> k
      then (case contiguous_run (max k (Suc (position p))) ps of
              (run, rest, k') \<Rightarrow> (p # run, rest, k'))
      else ([], p # ps, k))"

text \<open>
  Modelled from the spec: "the oldest pending chunk has aged beyond a gap-timeout". The
  oldest chunk is the one inserted first among the chunks still to be scanned.
\<close>

fun oldest :: "pending_chunk list \<Rightarrow> nat" where
  "oldest [] = 0"
| "oldest [p] = arrived p"
| "oldest (p # ps) = min (arrived p) (oldest ps)"

definition aged :: "nat \<Rightarrow> nat \<Rightarrow> pending_chunk list \<Rightarrow> bool" where
  "aged gt now ps = (gt < now - oldest ps)"

text \<open>
  Modelled from the spec: the truncation rule of section 4.2. A run of truncated chunks
  with contiguous timestamps is one logical write, and a segment may not end inside it. The
  truncated chunks at the end of a run are a write that may still go on with the next
  chunk, so they are held back, unless they are already as many as
  \<^verbatim>\<open>max_reassembly_span_chunks\<close>, the most one write may span. \<open>hold_back\<close> gives the
  chunks of a run that may be emitted and the chunks that are held.
\<close>

definition open_write :: "pending_chunk list \<Rightarrow> pending_chunk list" where
  "open_write run = rev (takeWhile (\<lambda>q. is_truncated (event q)) (rev run))"

definition hold_back :: "nat \<Rightarrow> pending_chunk list \<Rightarrow> pending_chunk list \<times> pending_chunk list" where
  "hold_back span run =
     (let n = length (open_write run)
      in if n < span then (take (length run - n) run, drop (length run - n) run)
         else (run, []))"

text \<open>
  Modelled from the spec: the scan of \<^verbatim>\<open>drain_ready\<close> (section 4.2), from the expected
  position \<open>k\<close> forward over the chunks at or after it. When the expected chunk is missing
  and the chunks there are have not aged beyond the timeout, the scan waits. Otherwise it
  takes the contiguous run that starts with the first chunk; the run comes after a hole when
  the expected chunk was missing. When the run is followed by newer chunks that have aged
  beyond the timeout, the chunk that would continue it is given up: the run is emitted
  whole and the scan goes on behind it. When it is not, the scan ends with this run, its
  open write is held back and the rest of it is emitted. A hole is recorded only together
  with the run that follows it, as the sink is told of a gap by a flag of the segment after
  it (section 4.4). The result keeps the chunks of every run, so that a statement can say
  which chunks a segment is made of.
\<close>

datatype drained = Run "pending_chunk list" | Hole

definition gap_mark :: "nat \<Rightarrow> pending_chunk \<Rightarrow> drained list" where
  "gap_mark k p = (if k < position p then [Hole] else [])"

lemma contiguous_run_length:
  "contiguous_run k ps = (run, rest, k') \<Longrightarrow> length rest \<le> length ps"
  by (induction ps arbitrary: k run rest k') (fastforce split: if_splits prod.splits)+

function drain_scan ::
  "nat \<Rightarrow> nat \<Rightarrow> nat \<Rightarrow> nat \<Rightarrow> pending_chunk list
     \<Rightarrow> drained list \<times> nat \<times> pending_chunk list" where
  "drain_scan gt span now k [] = ([], k, [])"
| "drain_scan gt span now k (p # ps) =
     (if k < position p \<and> \<not> aged gt now (p # ps) then ([], k, p # ps)
      else
        (case contiguous_run (max k (Suc (position p))) ps of
           (run, rest, k') \<Rightarrow>
             if rest \<noteq> [] \<and> aged gt now rest then
               (case drain_scan gt span now k' rest of
                  (ds, k'', left) \<Rightarrow> (gap_mark k p @ Run (p # run) # ds, k'', left))
             else
               (case hold_back span (p # run) of
                  (out, held) \<Rightarrow>
                    if out = [] then ([], k, p # ps)
                    else (gap_mark k p @ [Run out],
                          (case held of [] \<Rightarrow> k' | q # qs \<Rightarrow> position q),
                          held @ rest))))"
  by pat_completeness auto
termination
  by (relation "measure (\<lambda>(gt, span, now, k, ps). length ps)")
     (auto dest!: contiguous_run_length [OF sym] simp: less_Suc_eq_le)

text \<open>
  Modelled from the spec: what the sink is given for a scan, one segment with the bytes of
  each run and one gap marker for each hole, in the order of the scan.
\<close>

fun sink_items :: "drained list \<Rightarrow> sink_item list" where
  "sink_items [] = []"
| "sink_items (Run ps # ds) = Segment (chunk_bytes ps) # sink_items ds"
| "sink_items (Hole # ds) = GapMarker # sink_items ds"

text \<open>
  Modelled from the spec: \<^verbatim>\<open>drain_ready\<close>. The scan starts at the expected position, so a
  chunk whose position is already behind it is not scanned and stays buffered.
\<close>

definition drain_ready ::
  "stream_config \<Rightarrow> nat \<Rightarrow> stream_buffer \<Rightarrow> sink_item list \<times> stream_buffer" where
  "drain_ready cfg now b =
     (let stale = takeWhile (\<lambda>p. position p < expected b) (pending b);
          live = dropWhile (\<lambda>p. position p < expected b) (pending b)
      in case drain_scan (gap_timeout cfg) (max_reassembly_span_chunks cfg) now (expected b) live of
           (ds, k, left) \<Rightarrow> (sink_items ds, b\<lparr>pending := stale @ left, expected := k\<rparr>))"

text \<open>
  Modelled from the spec: the flush of sections 3 and 4.3. All that is still buffered is
  handed to the sink, as a last segment when it is the complete run from the expected
  position and behind a gap marker when it is not; then the buffer is released and the
  expected position is past everything flushed.
\<close>

definition release :: "stream_buffer \<Rightarrow> stream_buffer" where
  "release b =
     b\<lparr>pending := [],
       expected := fold (\<lambda>p k. max k (Suc (position p))) (pending b) (expected b)\<rparr>"

definition flush :: "stream_buffer \<Rightarrow> sink_item list \<times> stream_buffer" where
  "flush b =
     (if pending b = [] then ([], release b)
      else (case contiguous_run (expected b) (pending b) of
              (run, rest, k) \<Rightarrow>
                if rest = [] \<and> position (hd (pending b)) = expected b
                then ([Segment (chunk_bytes (pending b))], release b)
                else ([GapMarker, Segment (chunk_bytes (pending b))], release b)))"

text \<open>
  Modelled from the spec: \<^verbatim>\<open>ingest\<close> (section 4.3) for the stream the event belongs to. An
  event whose payload is longer than \<^verbatim>\<open>MAX_CHUNK\<close> is rejected and counted. Any other event
  is inserted and a drain is attempted; when what is left buffered after the drain is over
  the ceiling of the stream, it is flushed.
\<close>

definition ingest ::
  "(byte list \<Rightarrow> 'h) \<Rightarrow> stream_config \<Rightarrow> nat \<Rightarrow> capture_event \<Rightarrow> stream_buffer
     \<Rightarrow> sink_item list \<times> stream_buffer" where
  "ingest h cfg now e b =
     (if MAX_CHUNK < length (payload e) then ([], b\<lparr>malformed := malformed b + 1\<rparr>)
      else (case drain_ready cfg now (insert_chunk h now e b) of
              (out, b1) \<Rightarrow>
                if max_buffered_bytes_per_stream cfg < buffered_bytes b1
                then (case flush b1 of (out', b2) \<Rightarrow> (out @ out', b2))
                else (out, b1)))"

text \<open>
  Modelled from the spec: a sequence of events of one stream, each with the time it is
  delivered at, ingested in delivery order.
\<close>

fun ingest_all ::
  "(byte list \<Rightarrow> 'h) \<Rightarrow> stream_config \<Rightarrow> (nat \<times> capture_event) list \<Rightarrow> stream_buffer
     \<Rightarrow> sink_item list \<times> stream_buffer" where
  "ingest_all h cfg [] b = ([], b)"
| "ingest_all h cfg ((now, e) # es) b =
     (case ingest h cfg now e b of
        (out, b1) \<Rightarrow> (case ingest_all h cfg es b1 of (outs, b2) \<Rightarrow> (out @ outs, b2)))"

subsection \<open>What the statements are written with\<close>

text \<open>The number of payload bytes a list of sink items holds, and the bytes themselves.\<close>

fun item_bytes :: "sink_item \<Rightarrow> nat" where
  "item_bytes (Segment bs) = length bs"
| "item_bytes GapMarker = 0"

definition emitted_bytes :: "sink_item list \<Rightarrow> nat" where
  "emitted_bytes items = sum_list (map item_bytes items)"

fun item_payload :: "sink_item \<Rightarrow> byte list" where
  "item_payload (Segment bs) = bs"
| "item_payload GapMarker = []"

definition segment_bytes :: "sink_item list \<Rightarrow> byte list" where
  "segment_bytes items = concat (map item_payload items)"

text \<open>
  The chunks a drain scans, the runs and holes it finds there, and the chunks of its runs
  in the order they are emitted in.
\<close>

definition live_chunks :: "stream_buffer \<Rightarrow> pending_chunk list" where
  "live_chunks b = dropWhile (\<lambda>p. position p < expected b) (pending b)"

definition drain_trace :: "stream_config \<Rightarrow> nat \<Rightarrow> stream_buffer \<Rightarrow> drained list" where
  "drain_trace cfg now b =
     fst (drain_scan (gap_timeout cfg) (max_reassembly_span_chunks cfg) now (expected b)
            (live_chunks b))"

fun run_chunks :: "drained \<Rightarrow> pending_chunk list" where
  "run_chunks (Run ps) = ps"
| "run_chunks Hole = []"

definition drained_chunks :: "drained list \<Rightarrow> pending_chunk list" where
  "drained_chunks ds = concat (map run_chunks ds)"

text \<open>
  The key a duplicate is recognised by, and the two invariants of a buffer: its chunks are
  in position order, and no two of them have the same key.
\<close>

definition key_of :: "(byte list \<Rightarrow> 'h) \<Rightarrow> pending_chunk \<Rightarrow> nat \<times> 'h" where
  "key_of h p = (position p, h (payload (event p)))"

definition duplicate_free :: "(byte list \<Rightarrow> 'h) \<Rightarrow> stream_buffer \<Rightarrow> bool" where
  "duplicate_free h b = distinct (map (key_of h) (pending b))"

definition buffer_wf :: "(byte list \<Rightarrow> 'h) \<Rightarrow> stream_buffer \<Rightarrow> bool" where
  "buffer_wf h b = (sorted (map position (pending b)) \<and> duplicate_free h b)"


text \<open>
  A list of chunks with no position left out between two neighbours, and the division of
  a list of chunks in position order into its longest such runs: two runs that follow one
  another are parted by a position that no chunk has.
\<close>

fun gap_free :: "pending_chunk list \<Rightarrow> bool" where
  "gap_free [] = True"
| "gap_free [p] = True"
| "gap_free (p # q # ps) = (position q \<le> Suc (position p) \<and> gap_free (q # ps))"








text \<open>
  Concrete inputs: events with and without the truncation flag, three configurations, a
  buffer that waits at a hole and a buffer with a hole behind a chunk that is in order.
\<close>

definition chunk_at :: "nat \<Rightarrow> byte list \<Rightarrow> capture_event" where
  "chunk_at t bs =
     \<lparr>process_id = 1, thread_id = 1, direction = kSSLRead, timestamp = t, payload = bs,
      is_truncated = False\<rparr>"

definition truncated_at :: "nat \<Rightarrow> byte list \<Rightarrow> capture_event" where
  "truncated_at t bs = (chunk_at t bs)\<lparr>is_truncated := True\<rparr>"

definition example_config :: stream_config where
  "example_config =
     \<lparr>gap_timeout = 50, max_reassembly_span_chunks = 4, max_buffered_bytes_per_stream = 5\<rparr>"


definition wide_config :: stream_config where
  "wide_config =
     \<lparr>gap_timeout = 50, max_reassembly_span_chunks = 10,
      max_buffered_bytes_per_stream = 100000\<rparr>"

definition example_chunk :: pending_chunk where
  "example_chunk = \<lparr>event = chunk_at 3 [1, 2, 3], arrived = 0\<rparr>"

definition example_buffer :: stream_buffer where
  "example_buffer =
     \<lparr>pending = [example_chunk], expected = 2, dropped_duplicates = 0, malformed = 0\<rparr>"


section \<open>The declarations of the headers\<close>

lemma enum_values_ssl_data_event_type:
  "enum_values ssl_data_event_type_decl = [(''kSSLRead'', 0), (''kSSLWrite'', 1)]"
  by (simp add: enum_values_def ssl_data_event_type_decl_def)

lemma UNIV_ssl_data_event_type: "(UNIV :: ssl_data_event_type set) = {kSSLRead, kSSLWrite}"
  using ssl_data_event_type.exhaust by auto

lemma enum_values_bpf_field_info_kind:
  "enum_values bpf_field_info_kind_decl =
     [(''BPF_FIELD_BYTE_OFFSET'', 0),
      (''BPF_FIELD_BYTE_SIZE'', 1),
      (''BPF_FIELD_EXISTS'', 2),
      (''BPF_FIELD_SIGNED'', 3),
      (''BPF_FIELD_LSHIFT_U64'', 4),
      (''BPF_FIELD_RSHIFT_U64'', 5)]"
  by (simp add: enum_values_def bpf_field_info_kind_decl_def)

lemma UNIV_bpf_field_info_kind:
  "(UNIV :: bpf_field_info_kind set) =
     {BPF_FIELD_BYTE_OFFSET, BPF_FIELD_BYTE_SIZE, BPF_FIELD_EXISTS, BPF_FIELD_SIGNED,
      BPF_FIELD_LSHIFT_U64, BPF_FIELD_RSHIFT_U64}"
  using bpf_field_info_kind.exhaust by auto

lemma valid_data_length:
  "ssl_data_event_t_wf e \<Longrightarrow>
     length (valid_data e) = min (nat (sint (data_len e))) MAX_DATA_SIZE"
  by (simp add: ssl_data_event_t_wf_def valid_data_def)

lemma example_event_wf: "ssl_data_event_t_wf example_event"
  by (simp add: ssl_data_event_t_wf_def example_event_def MAX_DATA_SIZE_def)

lemma example_message_wf: "TLS_MESSAGE_wf example_message"
  by (simp add: TLS_MESSAGE_wf_def example_message_def MAX_DATA_def)

text \<open>
  Claim C5. The maximum payload size of a capture event chunk is exactly 8192 bytes: both
  macros are 8192, both structures declare their byte buffer with that many elements, so
  the buffer of every well-formed value holds 8192 bytes, any number of leading bytes taken
  from it as the payload are at most 8192, in particular the valid bytes of an event, and
  an event whose length field is 8192 has exactly 8192 valid bytes.
\<close>

theorem max_payload_8192:
  assumes "ssl_data_event_t_wf e" and "TLS_MESSAGE_wf m"
  shows "MAX_DATA_SIZE = 8192 \<and> MAX_DATA = 8192
    \<and> field_type ssl_data_event_t_decl ''data'' = Some (CArray CChar 8192)
    \<and> field_type TLS_MESSAGE_decl ''message'' = Some (CArray CChar 8192)
    \<and> field_array_len ssl_data_event_t_decl ''data'' = Some 8192
    \<and> field_array_len TLS_MESSAGE_decl ''message'' = Some 8192
    \<and> length (data e) = 8192 \<and> length (message m) = 8192
    \<and> length (take n (data e)) \<le> 8192 \<and> length (take n (message m)) \<le> 8192
    \<and> length (valid_data e) \<le> 8192
    \<and> length (valid_data (e\<lparr>data_len := 8192\<rparr>)) = 8192"
  using assms
  by (simp add: ssl_data_event_t_wf_def TLS_MESSAGE_wf_def valid_data_def MAX_DATA_SIZE_def
      MAX_DATA_def field_array_len_def field_type_def ssl_data_event_t_decl_def
      TLS_MESSAGE_decl_def)

theorem max_payload_8192_witness:
  "ssl_data_event_t_wf example_event \<and> TLS_MESSAGE_wf example_message
   \<and> length (data example_event) = 8192 \<and> length (message example_message) = 8192
   \<and> length (take 9000 (data example_event)) \<le> 8192
   \<and> length (take 9000 (message example_message)) \<le> 8192
   \<and> length (valid_data example_event) \<le> 8192
   \<and> length (valid_data (example_event\<lparr>data_len := 8192\<rparr>)) = 8192"
  using max_payload_8192 [OF example_event_wf example_message_wf, of 9000]
    example_event_wf example_message_wf
  by simp

text \<open>
  Claim C6. The capture event structure \<^verbatim>\<open>ssl_data_event_t\<close> types its fields as: process
  id unsigned 32-bit, thread id signed 32-bit, timestamp unsigned 64-bit (in nanoseconds, by
  its name), payload length signed 32-bit, and a buffer of 8192 bytes of which the first
  \<^verbatim>\<open>data_len\<close> are the valid ones. The ranges of the values follow from the types.
\<close>

theorem ssl_data_event_t_field_types:
  assumes "ssl_data_event_t_wf e"
  shows "field_names ssl_data_event_t_decl =
       [''type'', ''timestamp_ns'', ''pid'', ''tid'', ''data'', ''data_len'']
    \<and> field_int ssl_data_event_t_decl ''pid'' = Some (32, False)
    \<and> field_int ssl_data_event_t_decl ''tid'' = Some (32, True)
    \<and> field_int ssl_data_event_t_decl ''timestamp_ns'' = Some (64, False)
    \<and> field_int ssl_data_event_t_decl ''data_len'' = Some (32, True)
    \<and> field_type ssl_data_event_t_decl ''data'' = Some (CArray CChar 8192)
    \<and> unat (pid e) < 2 ^ 32
    \<and> - (2 ^ 31) \<le> sint (tid e) \<and> sint (tid e) < 2 ^ 31
    \<and> unat (timestamp_ns e) < 2 ^ 64
    \<and> - (2 ^ 31) \<le> sint (data_len e) \<and> sint (data_len e) < 2 ^ 31
    \<and> length (data e) = 8192
    \<and> valid_data e = take (nat (sint (data_len e))) (data e)
    \<and> length (valid_data e) = min (nat (sint (data_len e))) 8192"
proof -
  have decl: "field_names ssl_data_event_t_decl =
       [''type'', ''timestamp_ns'', ''pid'', ''tid'', ''data'', ''data_len'']
    \<and> field_int ssl_data_event_t_decl ''pid'' = Some (32, False)
    \<and> field_int ssl_data_event_t_decl ''tid'' = Some (32, True)
    \<and> field_int ssl_data_event_t_decl ''timestamp_ns'' = Some (64, False)
    \<and> field_int ssl_data_event_t_decl ''data_len'' = Some (32, True)
    \<and> field_type ssl_data_event_t_decl ''data'' = Some (CArray CChar 8192)"
    by (simp add: field_names_def field_int_def field_type_def ssl_data_event_t_decl_def
        MAX_DATA_SIZE_def)
  have p: "unat (pid e) < 2 ^ 32"
    using unsigned_less [of "pid e"] by simp
  have ts: "unat (timestamp_ns e) < 2 ^ 64"
    using unsigned_less [of "timestamp_ns e"] by simp
  have t: "- (2 ^ 31) \<le> sint (tid e) \<and> sint (tid e) < 2 ^ 31"
    using sint_ge [of "tid e"] sint_lt [of "tid e"] by simp
  have l: "- (2 ^ 31) \<le> sint (data_len e) \<and> sint (data_len e) < 2 ^ 31"
    using sint_ge [of "data_len e"] sint_lt [of "data_len e"] by simp
  have d: "length (data e) = 8192"
    using assms by (simp add: ssl_data_event_t_wf_def MAX_DATA_SIZE_def)
  have pl: "length (valid_data e) = min (nat (sint (data_len e))) 8192"
    using valid_data_length [OF assms] by (simp add: MAX_DATA_SIZE_def)
  show ?thesis
    using decl p ts t l d pl by (simp add: valid_data_def)
qed

theorem ssl_data_event_t_field_types_witness:
  "ssl_data_event_t_wf example_event
   \<and> unat (pid example_event) = 42 \<and> sint (tid example_event) = 43
   \<and> unat (timestamp_ns example_event) = 1000 \<and> sint (data_len example_event) = 8192
   \<and> length (data example_event) = 8192
   \<and> length (valid_data example_event) = min (nat (sint (data_len example_event))) 8192"
proof -
  have v: "unat (pid example_event) = 42 \<and> sint (tid example_event) = 43
      \<and> unat (timestamp_ns example_event) = 1000 \<and> sint (data_len example_event) = 8192"
    by (simp add: example_event_def)
  from ssl_data_event_t_field_types [OF example_event_wf] example_event_wf v
  show ?thesis by blast
qed

text \<open>
  Claim C7. The direction of a capture event (the field \<^verbatim>\<open>type\<close>, of the enumeration
  \<^verbatim>\<open>ssl_data_event_type\<close>) is an enumeration with exactly two members, of which the read
  member \<^verbatim>\<open>kSSLRead\<close> has the value 0 and the write member \<^verbatim>\<open>kSSLWrite\<close> the value 1.
\<close>

theorem ssl_data_event_type_read_0_write_1:
  "enum_values ssl_data_event_type_decl = [(''kSSLRead'', 0), (''kSSLWrite'', 1)]
   \<and> (UNIV :: ssl_data_event_type set) = {kSSLRead, kSSLWrite}
   \<and> card (UNIV :: ssl_data_event_type set) = 2
   \<and> ssl_data_event_type_val kSSLRead = Some 0
   \<and> ssl_data_event_type_val kSSLWrite = Some 1
   \<and> field_type ssl_data_event_t_decl ''type'' = Some (CEnum ''ssl_data_event_type'')"
  by (simp add: enum_values_ssl_data_event_type UNIV_ssl_data_event_type
      ssl_data_event_type_val_def field_type_def ssl_data_event_t_decl_def)

text \<open>
  Claim C9, as the spec states it: every wire-level event structure has fields for the
  process and thread identity, the direction, the timestamp and the bytes. \<^verbatim>\<open>TLS_MESSAGE\<close>
  has no field for the direction: none of its fields is read as one, and none has the type
  of the direction enumeration.
\<close>

theorem TLS_MESSAGE_carries_no_direction:
  "Direction \<notin> set (carried TLS_MESSAGE_decl)
   \<and> CEnum ''ssl_data_event_type'' \<notin> set (map snd TLS_MESSAGE_decl)"
  by (simp add: carried_def field_names_def TLS_MESSAGE_decl_def field_info_def
      List.map_filter_def)

text \<open>
  Claim C9, amended. \<^verbatim>\<open>ssl_data_event_t\<close> has fields for all four: the identity
  (\<^verbatim>\<open>pid\<close>, \<^verbatim>\<open>tid\<close>), the direction (\<^verbatim>\<open>type\<close>), the timestamp (\<^verbatim>\<open>timestamp_ns\<close>) and the
  bytes (\<^verbatim>\<open>data\<close>). \<^verbatim>\<open>TLS_MESSAGE\<close> has fields for the identity (\<^verbatim>\<open>ptid\<close>), a time
  (\<^verbatim>\<open>elapsed\<close>) and the bytes (\<^verbatim>\<open>message\<close>), and none for the direction.
\<close>

theorem event_structs_carried_info:
  "carried ssl_data_event_t_decl = [Direction, Timestamp, Identity, Identity, Chunk]
   \<and> set (carried ssl_data_event_t_decl) = {Identity, Direction, Timestamp, Chunk}
   \<and> carried TLS_MESSAGE_decl = [Timestamp, Identity, Chunk]
   \<and> set (carried TLS_MESSAGE_decl) = {Identity, Timestamp, Chunk}
   \<and> field_type ssl_data_event_t_decl ''type'' = Some (CEnum ''ssl_data_event_type'')"
proof -
  have a: "carried ssl_data_event_t_decl = [Direction, Timestamp, Identity, Identity, Chunk]"
    by (simp add: carried_def field_names_def ssl_data_event_t_decl_def field_info_def
        List.map_filter_def)
  have b: "carried TLS_MESSAGE_decl = [Timestamp, Identity, Chunk]"
    by (simp add: carried_def field_names_def TLS_MESSAGE_decl_def field_info_def
        List.map_filter_def)
  have c: "field_type ssl_data_event_t_decl ''type'' = Some (CEnum ''ssl_data_event_type'')"
    by (simp add: field_type_def ssl_data_event_t_decl_def)
  have "set [Direction, Timestamp, Identity, Identity, Chunk] =
      {Identity, Direction, Timestamp, Chunk}"
    by auto
  moreover have "set [Timestamp, Identity, Chunk] = {Identity, Timestamp, Chunk}"
    by auto
  ultimately show ?thesis
    using a b c by simp
qed

text \<open>
  Claim C10. The field relocation interface \<^verbatim>\<open>bpf_field_info_kind\<close> has exactly six kinds,
  byte offset, byte size, existence, signedness and the left and right 64-bit shifts, with
  the consecutive values 0 to 5 in this order.
\<close>

theorem bpf_field_info_kind_values_0_to_5:
  "enum_values bpf_field_info_kind_decl =
     [(''BPF_FIELD_BYTE_OFFSET'', 0),
      (''BPF_FIELD_BYTE_SIZE'', 1),
      (''BPF_FIELD_EXISTS'', 2),
      (''BPF_FIELD_SIGNED'', 3),
      (''BPF_FIELD_LSHIFT_U64'', 4),
      (''BPF_FIELD_RSHIFT_U64'', 5)]
   \<and> (UNIV :: bpf_field_info_kind set) =
       {BPF_FIELD_BYTE_OFFSET, BPF_FIELD_BYTE_SIZE, BPF_FIELD_EXISTS, BPF_FIELD_SIGNED,
        BPF_FIELD_LSHIFT_U64, BPF_FIELD_RSHIFT_U64}
   \<and> card (UNIV :: bpf_field_info_kind set) = 6
   \<and> map bpf_field_info_kind_val
        [BPF_FIELD_BYTE_OFFSET, BPF_FIELD_BYTE_SIZE, BPF_FIELD_EXISTS, BPF_FIELD_SIGNED,
         BPF_FIELD_LSHIFT_U64, BPF_FIELD_RSHIFT_U64]
       = [Some 0, Some 1, Some 2, Some 3, Some 4, Some 5]"
  by (simp add: enum_values_bpf_field_info_kind UNIV_bpf_field_info_kind
      bpf_field_info_kind_val_def)

section \<open>Properties of the reassembly buffer\<close>

subsection \<open>Bytes are neither lost nor made up\<close>

lemma chunk_bytes_Nil: "chunk_bytes [] = []"
  by (simp add: chunk_bytes_def)

lemma chunk_bytes_Cons: "chunk_bytes (p # ps) = payload (event p) @ chunk_bytes ps"
  by (simp add: chunk_bytes_def)

lemma chunk_bytes_append: "chunk_bytes (ps @ qs) = chunk_bytes ps @ chunk_bytes qs"
  by (simp add: chunk_bytes_def)

lemma contiguous_run_split:
  "contiguous_run k ps = (run, rest, k') \<Longrightarrow> ps = run @ rest"
  by (induction ps arbitrary: k run rest k') (auto split: if_splits prod.splits)

lemma hold_back_split: "hold_back span run = (out, held) \<Longrightarrow> run = out @ held"
  by (auto simp add: hold_back_def Let_def split: if_splits)

lemma drained_chunks_Nil: "drained_chunks [] = []"
  by (simp add: drained_chunks_def)

lemma drained_chunks_Run: "drained_chunks (Run ps # ds) = ps @ drained_chunks ds"
  by (simp add: drained_chunks_def)

lemma drained_chunks_Hole: "drained_chunks (Hole # ds) = drained_chunks ds"
  by (simp add: drained_chunks_def)

lemma drained_chunks_gap_mark: "drained_chunks (gap_mark k p @ ds) = drained_chunks ds"
  by (simp add: gap_mark_def drained_chunks_Hole)

lemma drain_scan_chunks:
  "drain_scan gt span now k ps = (ds, k', left) \<Longrightarrow> ps = drained_chunks ds @ left"
proof (induction gt span now k ps arbitrary: ds k' left rule: drain_scan.induct)
  case (1 gt span now k)
  then show ?case by (simp add: drained_chunks_Nil)
next
  case (2 gt span now k p ps)
  show ?case
  proof (cases "k < position p \<and> \<not> aged gt now (p # ps)")
    case True
    with "2.prems" show ?thesis by (simp add: drained_chunks_Nil)
  next
    case wait: False
    obtain run rest k1 where r: "contiguous_run (max k (Suc (position p))) ps = (run, rest, k1)"
      by (cases "contiguous_run (max k (Suc (position p))) ps") auto
    have split: "ps = run @ rest" using contiguous_run_split [OF r] .
    show ?thesis
    proof (cases "rest \<noteq> [] \<and> aged gt now rest")
      case True
      obtain ds1 k2 left1 where d: "drain_scan gt span now k1 rest = (ds1, k2, left1)"
        by (cases "drain_scan gt span now k1 rest") auto
      from "2.prems" wait r True d
      have eq: "ds = gap_mark k p @ Run (p # run) # ds1" "left = left1"
        by simp_all
      have "rest = drained_chunks ds1 @ left1"
        using "2.IH" [OF wait r [symmetric] refl True d] .
      with split eq show ?thesis
        by (simp add: drained_chunks_gap_mark drained_chunks_Run)
    next
      case False
      obtain out held where h: "hold_back span (p # run) = (out, held)"
        by (cases "hold_back span (p # run)") auto
      have oh: "p # run = out @ held" using hold_back_split [OF h] .
      show ?thesis
      proof (cases "out = []")
        case True
        with "2.prems" wait r False h show ?thesis by (simp add: drained_chunks_Nil)
      next
        case ne: False
        with "2.prems" wait r False h
        have eq: "ds = gap_mark k p @ [Run out]" "left = held @ rest"
          by simp_all
        have "p # ps = out @ held @ rest"
          using oh split by (metis append_Cons append_assoc)
        with eq show ?thesis
          by (simp add: drained_chunks_gap_mark drained_chunks_Run drained_chunks_Nil)
      qed
    qed
  qed
qed

lemma sink_items_bytes: "segment_bytes (sink_items ds) = chunk_bytes (drained_chunks ds)"
proof (induction ds rule: sink_items.induct)
  case 1
  then show ?case by (simp add: segment_bytes_def drained_chunks_Nil chunk_bytes_Nil)
next
  case (2 ps ds)
  then show ?case
    by (simp add: segment_bytes_def drained_chunks_Run chunk_bytes_append)
next
  case (3 ds)
  then show ?case by (simp add: segment_bytes_def drained_chunks_Hole)
qed

lemma emitted_bytes_length: "emitted_bytes items = length (segment_bytes items)"
proof (induction items)
  case Nil
  then show ?case by (simp add: emitted_bytes_def segment_bytes_def)
next
  case (Cons x items)
  then show ?case by (cases x) (simp_all add: emitted_bytes_def segment_bytes_def)
qed

lemma drain_scan_bytes:
  "drain_scan gt span now k ps = (ds, k', left) \<Longrightarrow>
     emitted_bytes (sink_items ds) + length (chunk_bytes left) = length (chunk_bytes ps)"
proof -
  assume "drain_scan gt span now k ps = (ds, k', left)"
  then have "ps = drained_chunks ds @ left" by (rule drain_scan_chunks)
  then show ?thesis
    by (simp add: emitted_bytes_length sink_items_bytes chunk_bytes_append)
qed

lemma drain_ready_bytes:
  "emitted_bytes (fst (drain_ready cfg now b)) + buffered_bytes (snd (drain_ready cfg now b))
     = buffered_bytes b"
proof -
  let ?stale = "takeWhile (\<lambda>p. position p < expected b) (pending b)"
  let ?live = "dropWhile (\<lambda>p. position p < expected b) (pending b)"
  obtain ds k left where d:
    "drain_scan (gap_timeout cfg) (max_reassembly_span_chunks cfg) now (expected b) ?live
       = (ds, k, left)"
    by (cases "drain_scan (gap_timeout cfg) (max_reassembly_span_chunks cfg) now (expected b)
        ?live") auto
  have "length (chunk_bytes (pending b)) = length (chunk_bytes ?stale) + length (chunk_bytes ?live)"
    by (metis chunk_bytes_append length_append takeWhile_dropWhile_id)
  with drain_scan_bytes [OF d] d show ?thesis
    by (simp add: drain_ready_def buffered_bytes_def chunk_bytes_append)
qed


lemma set_insert_by_position: "set (insert_by_position p qs) = insert p (set qs)"
  by (induction qs) auto

lemma sorted_insert_by_position:
  "sorted (map position qs) \<Longrightarrow> sorted (map position (insert_by_position p qs))"
  by (induction qs) (auto simp: set_insert_by_position)




lemma flush_bytes:
  "emitted_bytes (fst (flush b)) = buffered_bytes b \<and> buffered_bytes (snd (flush b)) = 0"
  by (simp add: flush_def release_def buffered_bytes_def emitted_bytes_def chunk_bytes_Nil
      split: prod.splits)

lemma ingest_bounded:
  "buffered_bytes b \<le> max_buffered_bytes_per_stream cfg \<Longrightarrow>
     buffered_bytes (snd (ingest h cfg now e b)) \<le> max_buffered_bytes_per_stream cfg"
  using flush_bytes [of "snd (drain_ready cfg now (insert_chunk h now e b))"]
  by (simp add: ingest_def buffered_bytes_def case_prod_beta)

lemma ingest_all_bounded:
  "buffered_bytes b \<le> max_buffered_bytes_per_stream cfg \<Longrightarrow>
     buffered_bytes (snd (ingest_all h cfg es b)) \<le> max_buffered_bytes_per_stream cfg"
proof (induction es arbitrary: b)
  case Nil
  then show ?case by simp
next
  case (Cons x es)
  obtain now e where x: "x = (now, e)" by (cases x)
  have "buffered_bytes (snd (ingest h cfg now e b)) \<le> max_buffered_bytes_per_stream cfg"
    using ingest_bounded [OF Cons.prems] .
  from Cons.IH [OF this] show ?case
    by (simp add: x case_prod_beta)
qed

lemma same_chunk_key: "same_chunk h e p = (key_of h p = (timestamp e, h (payload e)))"
  by (auto simp add: same_chunk_def key_of_def position_def)




lemma duplicate_free_insert_chunk:
  assumes "duplicate_free h b"
  shows "duplicate_free h (insert_chunk h now e b)"
proof (cases "list_ex (same_chunk h e) (pending b)")
  case True
  with assms show ?thesis by (simp add: insert_chunk_def duplicate_free_def)
next
  case False
  let ?p = "\<lparr>event = e, arrived = now\<rparr>"
  from False have notin: "key_of h ?p \<notin> key_of h ` set (pending b)"
    by (auto simp add: list_ex_iff same_chunk_key key_of_def position_def)
  have "distinct (map (key_of h) qs) \<Longrightarrow> key_of h ?p \<notin> key_of h ` set qs \<Longrightarrow>
        distinct (map (key_of h) (insert_by_position ?p qs))" for qs
    by (induction qs) (auto simp add: set_insert_by_position)
  from this [OF _ notin] assms False show ?thesis
    by (simp add: insert_chunk_def duplicate_free_def)
qed









subsection \<open>The invariants of a buffer\<close>

lemma drain_ready_pending:
  "\<exists>stale left. pending b = stale @ drained_chunks (drain_trace cfg now b) @ left
     \<and> pending (snd (drain_ready cfg now b)) = stale @ left"
proof -
  let ?stale = "takeWhile (\<lambda>p. position p < expected b) (pending b)"
  obtain ds k left where d:
    "drain_scan (gap_timeout cfg) (max_reassembly_span_chunks cfg) now (expected b)
       (live_chunks b) = (ds, k, left)"
    by (cases "drain_scan (gap_timeout cfg) (max_reassembly_span_chunks cfg) now (expected b)
        (live_chunks b)") auto
  have "live_chunks b = drained_chunks ds @ left"
    using drain_scan_chunks [OF d] .
  then have "pending b = ?stale @ drained_chunks ds @ left"
    unfolding live_chunks_def by (metis takeWhile_dropWhile_id)
  moreover from d have "pending (snd (drain_ready cfg now b)) = ?stale @ left"
    by (simp add: drain_ready_def live_chunks_def Let_def)
  moreover from d have "drain_trace cfg now b = ds"
    by (simp add: drain_trace_def)
  ultimately show ?thesis by blast
qed



lemma buffer_wf_insert_chunk:
  assumes "buffer_wf h b"
  shows "buffer_wf h (insert_chunk h now e b)"
proof -
  from assms have s: "sorted (map position (pending b))" and d: "duplicate_free h b"
    by (simp_all add: buffer_wf_def)
  have "sorted (map position (pending (insert_chunk h now e b)))"
    using s by (simp add: insert_chunk_def sorted_insert_by_position)
  with duplicate_free_insert_chunk [OF d] show ?thesis
    by (simp add: buffer_wf_def)
qed

lemma buffer_wf_drain_ready:
  assumes "buffer_wf h b"
  shows "buffer_wf h (snd (drain_ready cfg now b))"
proof -
  obtain stale left where p: "pending b = stale @ drained_chunks (drain_trace cfg now b) @ left"
    and q: "pending (snd (drain_ready cfg now b)) = stale @ left"
    using drain_ready_pending by blast
  let ?mid = "drained_chunks (drain_trace cfg now b)"
  from assms p have "sorted (map position (stale @ ?mid @ left))"
    and "distinct (map (key_of h) (stale @ ?mid @ left))"
    by (simp_all add: buffer_wf_def duplicate_free_def)
  then have "sorted (map position (stale @ left))" and "distinct (map (key_of h) (stale @ left))"
    by (auto simp add: sorted_append)
  with q show ?thesis by (simp add: buffer_wf_def duplicate_free_def)
qed

lemma buffer_wf_flush: "buffer_wf h (snd (flush b))"
  by (simp add: buffer_wf_def duplicate_free_def flush_def release_def case_prod_beta)

lemma buffer_wf_ingest:
  assumes "buffer_wf h b"
  shows "buffer_wf h (snd (ingest h cfg now e b))"
proof (cases "MAX_CHUNK < length (payload e)")
  case True
  with assms show ?thesis by (simp add: ingest_def buffer_wf_def duplicate_free_def)
next
  case False
  have "buffer_wf h (snd (drain_ready cfg now (insert_chunk h now e b)))"
    using buffer_wf_drain_ready [OF buffer_wf_insert_chunk [OF assms]] .
  with False buffer_wf_flush [of h "snd (drain_ready cfg now (insert_chunk h now e b))"]
  show ?thesis
    by (simp add: ingest_def case_prod_beta)
qed

lemma buffer_wf_ingest_all:
  "buffer_wf h b \<Longrightarrow> buffer_wf h (snd (ingest_all h cfg es b))"
proof (induction es arbitrary: b)
  case Nil
  then show ?case by simp
next
  case (Cons x es)
  obtain now e where x: "x = (now, e)" by (cases x)
  from Cons.IH [OF buffer_wf_ingest [OF Cons.prems]] show ?case
    by (simp add: x case_prod_beta)
qed

subsection \<open>Holes and runs\<close>




lemma gap_free_Cons:
  "gap_free (p # ps) = ((ps = [] \<or> position (hd ps) \<le> Suc (position p)) \<and> gap_free ps)"
  by (cases ps) auto















subsection \<open>The order of the chunks a drain emits\<close>












subsection \<open>The scenarios of the spec\<close>

text \<open>
  The three scenarios of section 8, run on the model. Two chunks delivered in the wrong
  order come out as one segment in the right order and with no gap marker. With the chunk
  of timestamp 2 never delivered and a timeout of 50, the chunk of timestamp 1 is emitted
  at once, and a drain after the timeout emits a gap marker and then the chunk of timestamp
  3. Ten truncated chunks of 8192 bytes with contiguous timestamps, delivered in order with
  a span of ten chunks, come out as one segment of 81920 bytes with no gap marker; so do
  two truncated chunks and the chunk that ends their write.
\<close>

lemmas eval_defs =
  ingest_def drain_ready_def insert_chunk_def new_stream_def chunk_at_def truncated_at_def
  same_chunk_def position_def aged_def chunk_bytes_def buffered_bytes_def
  MAX_CHUNK_def flush_def release_def hold_back_def open_write_def gap_mark_def

lemma scenario_reordered:
  "fst (ingest_all id example_config
          [(0, chunk_at 2 [32, 72, 84, 84, 80]), (1, chunk_at 1 [71, 69, 84, 32, 47])]
          (new_stream 1))
     = [Segment [71, 69, 84, 32, 47, 32, 72, 84, 84, 80]]"
  by (simp add: eval_defs example_config_def)

lemma scenario_gap:
  "fst (ingest_all id wide_config
          [(0, chunk_at 1 (replicate 100 7)), (0, chunk_at 3 (replicate 100 9))] (new_stream 1))
     = [Segment (replicate 100 7)]
   \<and> fst (drain_ready wide_config 51
        (snd (ingest_all id wide_config
          [(0, chunk_at 1 (replicate 100 7)), (0, chunk_at 3 (replicate 100 9))] (new_stream 1))))
     = [GapMarker, Segment (replicate 100 9)]"
  by (simp add: eval_defs wide_config_def)

lemma scenario_truncated3:
  "fst (ingest_all id example_config
          [(0, truncated_at 1 [1]), (1, truncated_at 2 [2]), (2, chunk_at 3 [3])]
          (new_stream 1))
     = [Segment [1, 2, 3]]"
  by (simp add: eval_defs example_config_def)

lemma scenario_truncated:
  "fst (ingest_all id wide_config
          [(1, truncated_at 1 (replicate 8192 1)), (2, truncated_at 2 (replicate 8192 2)),
           (3, truncated_at 3 (replicate 8192 3)), (4, truncated_at 4 (replicate 8192 4)),
           (5, truncated_at 5 (replicate 8192 5)), (6, truncated_at 6 (replicate 8192 6)),
           (7, truncated_at 7 (replicate 8192 7)), (8, truncated_at 8 (replicate 8192 8)),
           (9, truncated_at 9 (replicate 8192 9)), (10, truncated_at 10 (replicate 8192 10))]
          (new_stream 1))
     = [Segment (replicate 8192 1 @ replicate 8192 2 @ replicate 8192 3 @ replicate 8192 4
          @ replicate 8192 5 @ replicate 8192 6 @ replicate 8192 7 @ replicate 8192 8
          @ replicate 8192 9 @ replicate 8192 10)]"
  by (simp add: eval_defs wide_config_def)

lemma scenario_truncated_size:
  "emitted_bytes
     (fst (ingest_all id wide_config
          [(1, truncated_at 1 (replicate 8192 1)), (2, truncated_at 2 (replicate 8192 2)),
           (3, truncated_at 3 (replicate 8192 3)), (4, truncated_at 4 (replicate 8192 4)),
           (5, truncated_at 5 (replicate 8192 5)), (6, truncated_at 6 (replicate 8192 6)),
           (7, truncated_at 7 (replicate 8192 7)), (8, truncated_at 8 (replicate 8192 8)),
           (9, truncated_at 9 (replicate 8192 9)), (10, truncated_at 10 (replicate 8192 10))]
          (new_stream 1)))
     = 81920"
  unfolding scenario_truncated by (simp add: emitted_bytes_def)

subsection \<open>The claims about the buffer\<close>









text \<open>
  Claim C4. After every sequence of events of a stream the bytes buffered are at most
  \<^verbatim>\<open>max_buffered_bytes_per_stream\<close>. An insertion that takes the buffer over the ceiling
  makes the engine emit: the bytes emitted and the bytes still buffered add up to the bytes
  buffered after the insertion, what is still buffered is within the ceiling, so a
  non-empty segment has reached the sink (from the drain, or from the forced flush with
  its gap marker).
\<close>

theorem stream_bytes_bounded:
  assumes "length (payload e) \<le> MAX_CHUNK"
      and "max_buffered_bytes_per_stream cfg < buffered_bytes (insert_chunk h now e b)"
  shows "buffered_bytes (snd (ingest_all h cfg es (new_stream k)))
         \<le> max_buffered_bytes_per_stream cfg
     \<and> buffered_bytes (snd (ingest h cfg now e b)) \<le> max_buffered_bytes_per_stream cfg
     \<and> emitted_bytes (fst (ingest h cfg now e b)) + buffered_bytes (snd (ingest h cfg now e b))
         = buffered_bytes (insert_chunk h now e b)
     \<and> 0 < emitted_bytes (fst (ingest h cfg now e b))
     \<and> fst (ingest h cfg now e b) \<noteq> []"
proof -
  let ?m = "max_buffered_bytes_per_stream cfg"
  let ?b1 = "insert_chunk h now e b"
  let ?d = "drain_ready cfg now ?b1"
  have "buffered_bytes (new_stream k) \<le> ?m"
    by (simp add: buffered_bytes_def new_stream_def chunk_bytes_Nil)
  then have inv: "buffered_bytes (snd (ingest_all h cfg es (new_stream k))) \<le> ?m"
    by (rule ingest_all_bounded)
  have dr: "emitted_bytes (fst ?d) + buffered_bytes (snd ?d) = buffered_bytes ?b1"
    by (rule drain_ready_bytes)
  have fl: "emitted_bytes (fst (flush (snd ?d))) = buffered_bytes (snd ?d)
      \<and> buffered_bytes (snd (flush (snd ?d))) = 0"
    by (rule flush_bytes)
  have bounded: "buffered_bytes (snd (ingest h cfg now e b)) \<le> ?m"
    using assms(1) fl by (simp add: ingest_def case_prod_beta)
  have cons: "emitted_bytes (fst (ingest h cfg now e b)) + buffered_bytes (snd (ingest h cfg now e b))
         = buffered_bytes ?b1"
    using assms(1) fl dr by (simp add: ingest_def case_prod_beta emitted_bytes_def)
  from cons bounded assms(2) have pos: "0 < emitted_bytes (fst (ingest h cfg now e b))"
    by linarith
  then have "fst (ingest h cfg now e b) \<noteq> []"
    by (auto simp add: emitted_bytes_def)
  with inv bounded cons pos show ?thesis by blast
qed

theorem stream_bytes_bounded_witness:
  "length (payload (chunk_at 5 [4, 5, 6])) \<le> MAX_CHUNK
   \<and> max_buffered_bytes_per_stream example_config
       < buffered_bytes (insert_chunk id 1 (chunk_at 5 [4, 5, 6]) example_buffer)
   \<and> buffered_bytes (snd (ingest id example_config 1 (chunk_at 5 [4, 5, 6]) example_buffer))
       \<le> max_buffered_bytes_per_stream example_config
   \<and> fst (ingest id example_config 1 (chunk_at 5 [4, 5, 6]) example_buffer) \<noteq> []
   \<and> 0 < emitted_bytes (fst (ingest id example_config 1 (chunk_at 5 [4, 5, 6]) example_buffer))"
proof -
  have h1: "length (payload (chunk_at 5 [4, 5, 6])) \<le> MAX_CHUNK"
    by (simp add: chunk_at_def MAX_CHUNK_def)
  have h2: "max_buffered_bytes_per_stream example_config
       < buffered_bytes (insert_chunk id 1 (chunk_at 5 [4, 5, 6]) example_buffer)"
    by (simp add: example_config_def example_buffer_def example_chunk_def chunk_at_def
        insert_chunk_def same_chunk_def position_def buffered_bytes_def chunk_bytes_def)
  from stream_bytes_bounded [OF h1 h2, of "[]" 1] h1 h2 show ?thesis by blast
qed

end
